theory Spec2Isabelle
  imports Main "HOL-Library.Sublist"
begin

section \<open>Shared JavaScript notions\<close>

text \<open>
  A thrown \<open>Error\<close> is represented by its \<open>message\<close>; a call that may throw returns
  \<open>error + 'a\<close> with \<open>Inl\<close> for the throw.
\<close>

type_synonym error = string

text \<open>
  Truthiness of an optional string, as tested by \<open>!x\<close>: \<open>undefined\<close> and the empty
  string are falsy.
\<close>

definition truthy :: "string option \<Rightarrow> bool" where
  "truthy v = (case v of None \<Rightarrow> False | Some s \<Rightarrow> s \<noteq> [])"

text \<open>\<open>a || b\<close> on optional strings.\<close>

definition or_else :: "string option \<Rightarrow> string option \<Rightarrow> string option" where
  "or_else a b = (if truthy a then a else b)"

section \<open>Session registry: \<open>RTMPServer.setupEventHandlers\<close> (src/rtmp-server/src/index.ts)\<close>

text \<open>\<open>s.split(c)\<close> for a one-character separator: never empty, \<open>"".split("/")\<close> is \<open>[""]\<close>.\<close>

fun split :: "char \<Rightarrow> string \<Rightarrow> string list" where
  "split c [] = [[]]"
| "split c (x # xs) =
     (if x = c then [] # split c xs
      else (case split c xs of [] \<Rightarrow> [[x]] | w # ws \<Rightarrow> (x # w) # ws))"

text \<open>\<open>StreamPath.split("/").pop()\<close>: the last segment; \<open>undefined\<close> on an empty array.\<close>

definition pop :: "string list \<Rightarrow> string option" where
  "pop xs = (if xs = [] then None else Some (last xs))"

type_synonym sessionMap = "string \<rightharpoonup> string"

datatype admission = Admitted | Refused

text \<open>
  The \<open>prePublish\<close> handler: rejects the session when the stream key is falsy, otherwise
  \<open>sessionMap.set(streamKey, id)\<close>. \<open>Map.set\<close> does not throw, so the \<open>catch\<close> branch
  is never taken.
\<close>

definition prePublish :: "sessionMap \<Rightarrow> string \<Rightarrow> string \<Rightarrow> sessionMap \<times> admission" where
  "prePublish sm ident StreamPath =
     (case pop (split CHR ''/'' StreamPath) of
        None \<Rightarrow> (sm, Refused)
      | Some k \<Rightarrow> if k = [] then (sm, Refused) else (sm(k \<mapsto> ident), Admitted))"

text \<open>
  The \<open>donePublish\<close> handler: \<open>sessionMap.delete(streamKey)\<close>, with no check of the key.
  Deleting the key \<open>undefined\<close> removes nothing from a map keyed by strings.
\<close>

definition donePublish :: "sessionMap \<Rightarrow> string \<Rightarrow> string \<Rightarrow> sessionMap" where
  "donePublish sm ident StreamPath =
     (case pop (split CHR ''/'' StreamPath) of
        None \<Rightarrow> sm
      | Some k \<Rightarrow> sm(k := None))"

section \<open>Egress orchestrator: the webhook route (src/rtmp-server/loadtest/viewer_real.js)\<close>

text \<open>
  The fields of the platform's messages that the handler reads. \<open>room_name\<close> is
  \<open>event.room?.name\<close>, \<open>ingressInfo_roomName\<close> is \<open>event.ingressInfo?.roomName\<close> and
  \<open>ingressInfo_name\<close> is \<open>event.ingressInfo?.name\<close>; \<open>None\<close> is \<open>undefined\<close>. A track
  type is the platform's enum number: 0 is AUDIO, 1 is VIDEO.
\<close>

record TrackInfo =
  type :: nat
  sid :: string

record ParticipantInfo =
  identity :: string
  tracks :: "TrackInfo list"

record WebhookEvent =
  event :: string
  room_name :: "string option"
  track :: "TrackInfo option"
  ingressInfo_roomName :: "string option"
  ingressInfo_name :: "string option"

text \<open>
  What the outside world answers during one run of the handler: the verified and decoded
  event (or the receiver's throw), the answers to the first and to the second
  \<open>roomClient.listParticipants\<close>, and the results of the egress calls. The job id of a
  started egress is a string; the empty string stands for a missing id as well.
\<close>

record Services =
  receive :: "error + WebhookEvent"
  listParticipants_1st :: "error + ParticipantInfo list"
  listParticipants_2nd :: "error + ParticipantInfo list"
  startTrackCompositeEgress :: "error + string"
  stopEgress :: "error + unit"

text \<open>The external calls and delays a run of the handler performs, in order.\<close>

datatype call =
    Sleep nat
  | ListParticipants string
  | StartTrackCompositeEgress string string string
  | StopEgress string

text \<open>\<open>res.json({ ok: true })\<close> and \<open>res.status(400).json({ error })\<close>.\<close>

datatype response = Ok | BadRequest error

text \<open>
  How a block of the handler ends: with \<open>return res.json(...)\<close>, with a throw that
  reaches the outer \<open>catch\<close>, or by running on to the statement after the block.
\<close>

datatype completion = Return response | Throw error | Next

text \<open>\<open>activeEgressMap\<close>: room name to egress id.\<close>

type_synonym activeEgressMap = "string \<rightharpoonup> string"

text \<open>
  The \<open>track_published\<close> block up to its first \<open>await\<close>: the checks of room, track and
  track type, and the test \<open>activeEgressMap.has(roomName)\<close>. \<open>Inl r\<close> is an early
  return, \<open>Inr (roomName, videoTrackId)\<close> goes on to the participant query.
\<close>

definition track_guard :: "activeEgressMap \<Rightarrow> WebhookEvent \<Rightarrow> response + string \<times> string" where
  "track_guard m ev =
     (case room_name ev of
        None \<Rightarrow> Inl Ok
      | Some roomName \<Rightarrow>
          (case track ev of
             None \<Rightarrow> Inl Ok
           | Some tr \<Rightarrow>
               if roomName = [] then Inl Ok
               else if type tr = 0 then Inl Ok
               else if type tr \<noteq> 1 then Inl Ok
               else if m roomName \<noteq> None then Inl Ok
               else Inr (roomName, sid tr)))"

text \<open>
  The wait of 1200 ms, the participant query, and the single retry after 1000 ms that is
  made only when the first answer is an empty list.
\<close>

definition query_participants :: "Services \<Rightarrow> string \<Rightarrow> call list \<times> (error + ParticipantInfo list)" where
  "query_participants sv roomName =
     (case listParticipants_1st sv of
        Inl e \<Rightarrow> ([Sleep 1200, ListParticipants roomName], Inl e)
      | Inr participants \<Rightarrow>
          if participants = [] then
            ([Sleep 1200, ListParticipants roomName, Sleep 1000, ListParticipants roomName],
             listParticipants_2nd sv)
          else ([Sleep 1200, ListParticipants roomName], Inr participants))"

text \<open>\<open>pub.tracks.find((t) => t.type === 0)?.sid\<close>\<close>

definition audioTrackId_of :: "ParticipantInfo \<Rightarrow> string option" where
  "audioTrackId_of pub = map_option sid (List.find (\<lambda>t. type t = 0) (tracks pub))"

text \<open>
  The \<open>try\<close> around \<open>egressClient.startTrackCompositeEgress\<close>: the mapping is set only
  when the call returns; a throw is logged and swallowed.
\<close>

definition start_egress ::
  "activeEgressMap \<Rightarrow> Services \<Rightarrow> string \<Rightarrow> string \<Rightarrow> string \<Rightarrow> activeEgressMap \<times> call list" where
  "start_egress m sv roomName audioTrackId videoTrackId =
     (case startTrackCompositeEgress sv of
        Inl e \<Rightarrow> (m, [StartTrackCompositeEgress roomName audioTrackId videoTrackId])
      | Inr egressId \<Rightarrow>
          (m(roomName \<mapsto> egressId),
           [StartTrackCompositeEgress roomName audioTrackId videoTrackId]))"

text \<open>The whole \<open>track_published\<close> block, run without another handler in between.\<close>

definition track_published ::
  "activeEgressMap \<Rightarrow> Services \<Rightarrow> WebhookEvent \<Rightarrow> activeEgressMap \<times> call list \<times> completion" where
  "track_published m sv ev =
     (case track_guard m ev of
        Inl r \<Rightarrow> (m, [], Return r)
      | Inr (roomName, videoTrackId) \<Rightarrow>
          (case query_participants sv roomName of
             (cs, Inl e) \<Rightarrow> (m, cs, Throw e)
           | (cs, Inr participants) \<Rightarrow>
               (case participants of
                  [] \<Rightarrow> (m, cs, Return Ok)
                | pub # _ \<Rightarrow>
                    (case audioTrackId_of pub of
                       None \<Rightarrow> (m, cs, Return Ok)
                     | Some audioTrackId \<Rightarrow>
                         if videoTrackId = [] \<or> audioTrackId = [] then (m, cs, Return Ok)
                         else
                           (case start_egress m sv roomName audioTrackId videoTrackId of
                              (m', cs') \<Rightarrow> (m', cs @ cs', Next))))))"

text \<open>
  The \<open>ingress_ended\<close> block. The room is \<open>ingressInfo.roomName || ingressInfo.name\<close>;
  a falsy \<open>activeEgressMap.get(roomName)\<close> returns early, before the \<open>delete\<close>; the stop
  call sits in a \<open>try\<close> whose \<open>catch\<close> only logs, and the \<open>delete\<close> follows either way.
\<close>

definition ingress_ended ::
  "activeEgressMap \<Rightarrow> Services \<Rightarrow> WebhookEvent \<Rightarrow> activeEgressMap \<times> call list \<times> completion" where
  "ingress_ended m sv ev =
     (case or_else (ingressInfo_roomName ev) (ingressInfo_name ev) of
        None \<Rightarrow> (m, [], Return Ok)
      | Some roomName \<Rightarrow>
          if roomName = [] then (m, [], Return Ok)
          else
            (case m roomName of
               None \<Rightarrow> (m, [], Return Ok)
             | Some egressId \<Rightarrow>
                 if egressId = [] then (m, [], Return Ok)
                 else
                   (case stopEgress sv of
                      Inl e \<Rightarrow> (m(roomName := None), [StopEgress egressId], Next)
                    | Inr u \<Rightarrow> (m(roomName := None), [StopEgress egressId], Next))))"

text \<open>
  The route handler: a throw of \<open>receiver.receive\<close> or of anything inside is answered
  with status 400 by the outer \<open>catch\<close>; otherwise the two blocks run in order and the
  answer is \<open>{ ok: true }\<close>.
\<close>

definition webhook :: "activeEgressMap \<Rightarrow> Services \<Rightarrow> activeEgressMap \<times> call list \<times> response" where
  "webhook m sv =
     (case receive sv of
        Inl e \<Rightarrow> (m, [], BadRequest e)
      | Inr ev \<Rightarrow>
          (case (if event ev = ''track_published'' then track_published m sv ev
                 else (m, [], Next)) of
             (m1, cs1, Return r) \<Rightarrow> (m1, cs1, r)
           | (m1, cs1, Throw e) \<Rightarrow> (m1, cs1, BadRequest e)
           | (m1, cs1, Next) \<Rightarrow>
               (case (if event ev = ''ingress_ended'' then ingress_ended m1 sv ev
                      else (m1, [], Next)) of
                  (m2, cs2, Return r) \<Rightarrow> (m2, cs1 @ cs2, r)
                | (m2, cs2, Throw e) \<Rightarrow> (m2, cs1 @ cs2, BadRequest e)
                | (m2, cs2, Next) \<Rightarrow> (m2, cs1 @ cs2, Ok))))"

text \<open>
  Deliveries handled one after the other, each to completion before the next begins:
  the final mapping and all calls made.
\<close>

fun deliver :: "activeEgressMap \<Rightarrow> Services list \<Rightarrow> activeEgressMap \<times> call list" where
  "deliver m [] = (m, [])"
| "deliver m (sv # svs) =
     (case webhook m sv of
        (m', cs, r) \<Rightarrow> (case deliver m' svs of (m'', cs') \<Rightarrow> (m'', cs @ cs')))"

text \<open>The start calls among some calls, and those for one room.\<close>

fun is_start :: "call \<Rightarrow> bool" where
  "is_start (StartTrackCompositeEgress r a v) = True"
| "is_start c = False"

fun is_start_for :: "string \<Rightarrow> call \<Rightarrow> bool" where
  "is_start_for r (StartTrackCompositeEgress r' a v) = (r' = r)"
| "is_start_for r c = False"

text \<open>A delivery that is an \<open>ingress_ended\<close> event for the room \<open>r\<close>.\<close>

definition ends_room :: "string \<Rightarrow> Services \<Rightarrow> bool" where
  "ends_room r sv =
     (case receive sv of
        Inl e \<Rightarrow> False
      | Inr ev \<Rightarrow>
          event ev = ''ingress_ended''
          \<and> or_else (ingressInfo_roomName ev) (ingressInfo_name ev) = Some r)"

section \<open>The file system and the clock, as the storage backends use them\<close>

text \<open>
  The file system is a list of paths with the node that lies at each, in directory
  order. What is inside a directory are the nodes whose paths go on from the
  directory's path with further segments. \<open>busy\<close> marks a node that the operating
  system refuses to unlink or rename (\<open>EBUSY\<close>, \<open>EPERM\<close>). Sizes are bytes, times
  are milliseconds since the epoch.
\<close>

record Stats =
  size' :: nat
  birthtime :: int
  isDirectory :: bool

record node =
  stats :: Stats
  busy :: bool

type_synonym filesystem = "(string \<times> node) list"

text \<open>One instant of the clock: \<open>Date.now()\<close> and \<open>new Date().toISOString()\<close>.\<close>

record Clock =
  now :: int
  toISOString :: string

text \<open>\<open>path.join(dir, name)\<close>, for segments that need no normalising; an empty segment is dropped.\<close>

definition path_join :: "string \<Rightarrow> string \<Rightarrow> string" where
  "path_join dir name = (if name = [] then dir else dir @ ''/'' @ name)"

text \<open>The path \<open>q\<close> is \<open>p\<close> or lies inside \<open>p\<close>.\<close>

definition within :: "string \<Rightarrow> string \<Rightarrow> bool" where
  "within p q = (q = p \<or> prefix (p @ ''/'') q)"

definition pathExists :: "filesystem \<Rightarrow> string \<Rightarrow> bool" where
  "pathExists fs p = (map_of fs p \<noteq> None)"

definition stat :: "filesystem \<Rightarrow> string \<Rightarrow> error + Stats" where
  "stat fs p =
     (case map_of fs p of
        None \<Rightarrow> Inl (''ENOENT: no such file or directory, stat '' @ p)
      | Some n \<Rightarrow> Inr (stats n))"

text \<open>
  The first node at \<open>p\<close> or inside it that the operating system refuses to unlink, if
  there is one.
\<close>

definition refused :: "filesystem \<Rightarrow> string \<Rightarrow> (string \<times> node) option" where
  "refused fs p = List.find (\<lambda>(q, x). within p q \<and> busy x) fs"

text \<open>
  \<open>fs.remove\<close>: removes the node with all that is inside it; removing what is not there
  succeeds. When the node itself or a node inside it is busy, the refused unlink makes
  it throw. The model then keeps every node; what a real removal may have unlinked
  inside a directory before it threw is not modelled, and no fact below says anything
  about the inside of a directory whose removal threw.
\<close>

definition remove :: "filesystem \<Rightarrow> string \<Rightarrow> error + filesystem" where
  "remove fs p =
     (case map_of fs p of
        None \<Rightarrow> Inr fs
      | Some n \<Rightarrow>
          (case refused fs p of
             Some (q, x) \<Rightarrow> Inl (''EBUSY: resource busy or locked, unlink '' @ q)
           | None \<Rightarrow> Inr (filter (\<lambda>(q, x). \<not> within p q) fs)))"

text \<open>Where a path lies after \<open>src\<close> has been renamed to \<open>dest\<close>.\<close>

definition rebase :: "string \<Rightarrow> string \<Rightarrow> string \<Rightarrow> string" where
  "rebase src dest q =
     (if q = src then dest
      else if prefix (src @ ''/'') q then dest @ drop (length src) q
      else q)"

text \<open>
  \<open>fs.move\<close> without \<open>overwrite\<close>: a rename that throws when the source is missing,
  when source and destination are the same or the destination lies inside the source,
  when the destination exists (as a node, or as a directory above the source), and
  when the node is busy.
\<close>

definition move :: "filesystem \<Rightarrow> string \<Rightarrow> string \<Rightarrow> error + filesystem" where
  "move fs src dest =
     (case map_of fs src of
        None \<Rightarrow> Inl (''ENOENT: no such file or directory, lstat '' @ src)
      | Some n \<Rightarrow>
          if src = dest then Inl ''Source and destination must not be the same.''
          else if prefix (src @ ''/'') dest
          then Inl (''Cannot move '' @ src @ '' to a subdirectory of itself, '' @ dest)
          else if map_of fs dest \<noteq> None \<or> prefix (dest @ ''/'') src
          then Inl ''dest already exists.''
          else if busy n then Inl (''EBUSY: resource busy or locked, rename '' @ src)
          else Inr (map (\<lambda>(q, x). (rebase src dest q, x)) fs))"




section \<open>Storage values: \<open>IStorageMetadata\<close>, \<open>IStorageResult\<close> (base-storage)\<close>

record IStorageMetadata =
  streamKey :: string
  fileName :: string
  fileSize :: nat
  duration :: "nat option"
  quality :: "string option"
  thumbnailPath :: "string option"
  uploadTime :: int

text \<open>\<open>Partial<IStorageMetadata>\<close>: every field may be left out.\<close>

record PartialMetadata =
  streamKey_opt :: "string option"
  fileName_opt :: "string option"
  fileSize_opt :: "nat option"
  duration_opt :: "nat option"
  quality_opt :: "string option"
  thumbnailPath_opt :: "string option"
  uploadTime_opt :: "int option"

record IStorageResult =
  success :: bool
  filePath :: "string option"
  url :: "string option"
  metadata :: IStorageMetadata
  error :: "string option"

text \<open>
  The object literal \<open>{ streamKey, fileName, fileSize, uploadTime, ...metadata }\<close>: the
  caller's fields come last and replace the computed ones.
\<close>

definition spread :: "string \<Rightarrow> string \<Rightarrow> nat \<Rightarrow> int \<Rightarrow> PartialMetadata \<Rightarrow> IStorageMetadata" where
  "spread key name sz t pm =
     \<lparr>streamKey = (case streamKey_opt pm of None \<Rightarrow> key | Some v \<Rightarrow> v),
      fileName = (case fileName_opt pm of None \<Rightarrow> name | Some v \<Rightarrow> v),
      fileSize = (case fileSize_opt pm of None \<Rightarrow> sz | Some v \<Rightarrow> v),
      duration = duration_opt pm,
      quality = quality_opt pm,
      thumbnailPath = thumbnailPath_opt pm,
      uploadTime = (case uploadTime_opt pm of None \<Rightarrow> t | Some v \<Rightarrow> v)\<rparr>"

text \<open>The result built in the \<open>catch\<close> branch of both \<open>saveRecording\<close> methods.\<close>

definition failed :: "string \<Rightarrow> Clock \<Rightarrow> error \<Rightarrow> IStorageResult" where
  "failed key clk e =
     \<lparr>success = False, filePath = None, url = None,
      metadata = \<lparr>streamKey = key, fileName = [], fileSize = 0, duration = None,
                  quality = None, thumbnailPath = None, uploadTime = now clk\<rparr>,
      error = Some e\<rparr>"

text \<open>\<open>new Date().toISOString().replace(/[:.]/g, "-")\<close>\<close>

definition timestamp :: "Clock \<Rightarrow> string" where
  "timestamp clk =
     map (\<lambda>c. if c = CHR '':'' \<or> c = CHR ''.'' then CHR ''-'' else c) (toISOString clk)"

section \<open>\<open>LocalStorage\<close> (local-storage)\<close>

text \<open>\<open>HTTP_PORT\<close> is the text that \<open>process.env.HTTP_PORT\<close> prints as in the URL template.\<close>

record LocalStorage =
  recordingsPath :: string
  tempPath :: string
  HTTP_PORT :: string


definition LocalStorage_saveRecording ::
  "LocalStorage \<Rightarrow> Clock \<Rightarrow> filesystem \<Rightarrow> string \<Rightarrow> string \<Rightarrow> PartialMetadata
     \<Rightarrow> filesystem \<times> IStorageResult" where
  "LocalStorage_saveRecording ls clk fs tempFilePath key pm =
     (let name = key @ ''_'' @ timestamp clk @ ''.flv'';
          finalPath = path_join (recordingsPath ls) name
      in if \<not> pathExists fs tempFilePath
         then (fs, failed key clk (''Temp file not found: '' @ tempFilePath))
         else
           (case move fs tempFilePath finalPath of
              Inl e \<Rightarrow> (fs, failed key clk e)
            | Inr fs' \<Rightarrow>
                (case stat fs' finalPath of
                   Inl e \<Rightarrow> (fs', failed key clk e)
                 | Inr st \<Rightarrow>
                     (fs',
                      \<lparr>success = True, filePath = Some finalPath,
                       url = Some (''http://localhost:'' @ HTTP_PORT ls @ ''/recordings/'' @ name),
                       metadata = spread key name (size' st) (now clk) pm,
                       error = None\<rparr>))))"

definition LocalStorage_deleteRecording ::
  "LocalStorage \<Rightarrow> filesystem \<Rightarrow> string \<Rightarrow> filesystem \<times> bool" where
  "LocalStorage_deleteRecording ls fs name =
     (let filePath = path_join (recordingsPath ls) name
      in if pathExists fs filePath
         then (case remove fs filePath of
                 Inl e \<Rightarrow> (fs, False)
               | Inr fs' \<Rightarrow> (fs', True))
         else (fs, False))"





section \<open>\<open>S3Storage\<close> (s3-storage)\<close>

text \<open>
  The object store as the client sees it: whether the endpoint answers and accepts the
  credentials, and the objects of each bucket. Of an object the model keeps its length
  and the attributes the upload sets; the user metadata map is left out.
\<close>

record S3Object =
  ContentLength :: nat
  ContentType :: string
  StorageClass :: string
  ServerSideEncryption :: string

record S3 =
  reachable :: bool
  buckets :: "string \<rightharpoonup> (string \<rightharpoonup> S3Object)"

definition headBucket :: "S3 \<Rightarrow> string \<Rightarrow> error + unit" where
  "headBucket s3 b =
     (if \<not> reachable s3 then Inl ''NetworkingError''
      else if buckets s3 b = None then Inl ''NotFound''
      else Inr ())"

text \<open>\<open>s3.upload\<close>: stores the object and answers with its location.\<close>

definition upload :: "S3 \<Rightarrow> string \<Rightarrow> string \<Rightarrow> S3Object \<Rightarrow> error + S3 \<times> string" where
  "upload s3 b k obj =
     (if \<not> reachable s3 then Inl ''NetworkingError''
      else
        (case buckets s3 b of
           None \<Rightarrow> Inl ''NoSuchBucket''
         | Some objs \<Rightarrow>
             Inr (s3\<lparr>buckets := (buckets s3)(b \<mapsto> objs(k \<mapsto> obj))\<rparr>,
                  ''https://'' @ b @ ''.s3.amazonaws.com/'' @ k)))"

text \<open>
  \<open>s3.deleteObject\<close>: the store acknowledges the removal of a key whether or not an
  object was stored under it.
\<close>

definition deleteObject :: "S3 \<Rightarrow> string \<Rightarrow> string \<Rightarrow> error + S3" where
  "deleteObject s3 b k =
     (if \<not> reachable s3 then Inl ''NetworkingError''
      else
        (case buckets s3 b of
           None \<Rightarrow> Inl ''NoSuchBucket''
         | Some objs \<Rightarrow> Inr (s3\<lparr>buckets := (buckets s3)(b \<mapsto> objs(k := None))\<rparr>)))"

text \<open>The variables of \<open>process.env\<close> that the constructor reads.\<close>

record Env =
  S3_BUCKET_NAME :: "string option"
  S3_RECORDINGS_PREFIX :: "string option"
  CLOUDFRONT_DOMAIN :: "string option"

record S3Storage =
  bucketName :: string
  recordingsPrefix :: string
  cloudFrontDomain :: "string option"

text \<open>The settled state of a promise.\<close>

datatype 'a promise = Fulfilled 'a | Rejected error

text \<open>
  \<open>verifyConnection\<close> is an \<open>async\<close> method: calling it never throws to the caller, it
  returns a promise, and the \<open>throw new Error(...)\<close> in its \<open>catch\<close> rejects that promise.
\<close>

definition verifyConnection :: "S3Storage \<Rightarrow> S3 \<Rightarrow> unit promise" where
  "verifyConnection st s3 =
     (case headBucket s3 (bucketName st) of
        Inr u \<Rightarrow> Fulfilled ()
      | Inl e \<Rightarrow> Rejected (''S3 connection failed: '' @ e))"

text \<open>
  The constructor: \<open>Inl\<close> would be a throw out of \<open>new S3Storage()\<close>, \<open>Inr\<close> is the
  instance it returns, paired with the promise of \<open>this.verifyConnection()\<close>, which the
  constructor calls as a statement and drops (no \<open>await\<close>, no \<open>catch\<close>).
\<close>

definition S3Storage_constructor :: "Env \<Rightarrow> S3 \<Rightarrow> error + S3Storage \<times> unit promise" where
  "S3Storage_constructor env s3 =
     (let st = \<lparr>bucketName =
                   (case or_else (S3_BUCKET_NAME env) (Some ''livestream-recordings'') of
                      None \<Rightarrow> [] | Some v \<Rightarrow> v),
                 recordingsPrefix =
                   (case or_else (S3_RECORDINGS_PREFIX env) (Some ''recordings/'') of
                      None \<Rightarrow> [] | Some v \<Rightarrow> v),
                 cloudFrontDomain = CLOUDFRONT_DOMAIN env\<rparr>
      in Inr (st, verifyConnection st s3))"

definition S3Storage_saveRecording ::
  "S3Storage \<Rightarrow> Clock \<Rightarrow> filesystem \<Rightarrow> S3 \<Rightarrow> string \<Rightarrow> string \<Rightarrow> PartialMetadata
     \<Rightarrow> filesystem \<times> S3 \<times> IStorageResult" where
  "S3Storage_saveRecording st clk fs s3 tempFilePath key pm =
     (if \<not> pathExists fs tempFilePath
      then (fs, s3, failed key clk (''Temp file not found: '' @ tempFilePath))
      else
        (let name = key @ ''_'' @ timestamp clk @ ''.flv'';
             s3Key = recordingsPrefix st @ key @ ''/'' @ name
         in case stat fs tempFilePath of
              Inl e \<Rightarrow> (fs, s3, failed key clk e)
            | Inr sta \<Rightarrow>
                if isDirectory sta
                then (fs, s3, failed key clk ''EISDIR: illegal operation on a directory, read'')
                else
                  (case upload s3 (bucketName st) s3Key
                          \<lparr>ContentLength = size' sta, ContentType = ''video/x-flv'',
                           StorageClass = ''STANDARD_IA'', ServerSideEncryption = ''AES256''\<rparr> of
                     Inl e \<Rightarrow> (fs, s3, failed key clk e)
                   | Inr (s3', location) \<Rightarrow>
                       (case remove fs tempFilePath of
                          Inl e \<Rightarrow> (fs, s3', failed key clk e)
                        | Inr fs' \<Rightarrow>
                            (fs', s3',
                             \<lparr>success = True, filePath = Some s3Key,
                              url = Some (if truthy (cloudFrontDomain st)
                                          then ''https://''
                                               @ (case cloudFrontDomain st of None \<Rightarrow> [] | Some d \<Rightarrow> d)
                                               @ ''/'' @ s3Key
                                          else location),
                              metadata = spread key name (size' sta) (now clk) pm,
                              error = None\<rparr>)))))"

definition S3Storage_deleteRecording :: "S3Storage \<Rightarrow> S3 \<Rightarrow> string \<Rightarrow> S3 \<times> bool" where
  "S3Storage_deleteRecording st s3 s3Key =
     (case deleteObject s3 (bucketName st) s3Key of
        Inr s3' \<Rightarrow> (s3', True)
      | Inl e \<Rightarrow> (s3, False))"

section \<open>Facts about the session registry\<close>

lemma split_nonempty: "split c s \<noteq> []"
  by (induction s) (auto split: list.splits)

lemma pop_split_Some: "\<exists>k. pop (split c s) = Some k"
  by (simp add: pop_def split_nonempty)

lemma split_no_separator:
  assumes "c \<notin> set k"
  shows "split c k = [k]"
  using assms by (induction k) auto

lemma split_at_separator: "split c (d @ c # k) = split c d @ split c k"
proof (induction d)
  case Nil
  show ?case by simp
next
  case (Cons x d)
  obtain w ws where "split c d = w # ws"
    using split_nonempty [of c d] by (cases "split c d") auto
  with Cons.IH show ?case by simp
qed

text \<open>The stream key of a path is what follows its last separator.\<close>

lemma pop_split_last_segment:
  assumes "CHR ''/'' \<notin> set k"
  shows "pop (split CHR ''/'' (d @ CHR ''/'' # k)) = Some k"
    and "pop (split CHR ''/'' k) = Some k"
  using assms by (simp_all add: pop_def split_at_separator split_no_separator)

text \<open>
  C9. For every stream path whose last segment (the stream key) is not empty, the
  publish-start handler admits the session and records it under the key; the publish-end
  handler for the same key then leaves the registry without that key (and otherwise as it
  was before the registration, apart from that key), and a second publish-end changes
  nothing. A publish-end for an absent key leaves the registry as it is.
\<close>

theorem register_unregister:
  assumes "pop (split CHR ''/'' p) = Some k" and "k \<noteq> []"
  shows "prePublish sm i p = (sm(k \<mapsto> i), Admitted)
    \<and> donePublish (fst (prePublish sm i p)) j p k = None
    \<and> donePublish (fst (prePublish sm i p)) j p = sm(k := None)
    \<and> donePublish (donePublish (fst (prePublish sm i p)) j p) j' p
           = donePublish (fst (prePublish sm i p)) j p
    \<and> (sm k = None \<longrightarrow> donePublish sm j p = sm)"
  using assms by (auto simp: prePublish_def donePublish_def)

theorem register_unregister_witness:
  "pop (split CHR ''/'' ''/live/abc'') = Some ''abc'' \<and> ''abc'' \<noteq> []
   \<and> (prePublish Map.empty ''s1'' ''/live/abc'' = (Map.empty(''abc'' \<mapsto> ''s1''), Admitted)
    \<and> donePublish (fst (prePublish Map.empty ''s1'' ''/live/abc'')) ''s1'' ''/live/abc'' ''abc'' = None
    \<and> donePublish (fst (prePublish Map.empty ''s1'' ''/live/abc'')) ''s1'' ''/live/abc''
          = Map.empty(''abc'' := None)
    \<and> donePublish (donePublish (fst (prePublish Map.empty ''s1'' ''/live/abc'')) ''s1'' ''/live/abc'')
            ''s1'' ''/live/abc''
          = donePublish (fst (prePublish Map.empty ''s1'' ''/live/abc'')) ''s1'' ''/live/abc'')"
proof -
  have h: "pop (split CHR ''/'' ''/live/abc'') = Some ''abc''" by (simp add: pop_def)
  have n: "''abc'' \<noteq> []" by simp
  from h n register_unregister [OF h n, of Map.empty "''s1''" "''s1''" "''s1''"]
  show ?thesis by blast
qed

section \<open>Facts about the egress orchestrator\<close>

lemma track_guard_Inr:
  assumes "track_guard m ev = Inr (rn, v)"
  shows "m rn = None \<and> rn \<noteq> [] \<and> room_name ev = Some rn
         \<and> (\<exists>tr. track ev = Some tr \<and> type tr = 1 \<and> sid tr = v)"
  using assms by (auto simp: track_guard_def split: option.splits if_splits)

lemma query_participants_no_start:
  "filter (is_start_for r) (fst (query_participants sv rn)) = []"
  by (simp add: query_participants_def split: sum.splits)

lemma start_egress_other_room:
  assumes "rn \<noteq> r"
  shows "fst (start_egress m sv rn a v) r = m r
         \<and> filter (is_start_for r) (snd (start_egress m sv rn a v)) = []"
  using assms by (simp add: start_egress_def split: sum.splits)

lemma track_published_keeps_mapping:
  assumes "m r \<noteq> None"
  shows "fst (track_published m sv ev) r = m r
         \<and> filter (is_start_for r) (fst (snd (track_published m sv ev))) = []"
proof (cases "track_guard m ev")
  case (Inl a)
  then show ?thesis by (simp add: track_published_def)
next
  case (Inr b)
  obtain rn v where b: "b = (rn, v)" by (cases b)
  with Inr track_guard_Inr [of m ev rn v] assms have ne: "rn \<noteq> r" by auto
  obtain cs res where q: "query_participants sv rn = (cs, res)"
    by (cases "query_participants sv rn")
  with query_participants_no_start [of r sv rn]
  have cs: "filter (is_start_for r) cs = []" by simp
  show ?thesis
    using Inr b q cs ne
    by (auto simp: track_published_def start_egress_def
        split: sum.splits list.splits option.splits)
qed

lemma ingress_ended_keeps_mapping:
  assumes "or_else (ingressInfo_roomName ev) (ingressInfo_name ev) \<noteq> Some r"
  shows "fst (ingress_ended m sv ev) r = m r
         \<and> filter (is_start_for r) (fst (snd (ingress_ended m sv ev))) = []"
  using assms by (auto simp: ingress_ended_def split: option.splits sum.splits)


lemma webhook_keeps_mapping:
  assumes "m r \<noteq> None" and "\<not> ends_room r sv"
  shows "fst (webhook m sv) r = m r \<and> filter (is_start_for r) (fst (snd (webhook m sv))) = []"
proof (cases "receive sv")
  case (Inl e)
  then show ?thesis by (simp add: webhook_def)
next
  case (Inr ev)
  obtain m1 cs1 c1 where t: "track_published m sv ev = (m1, cs1, c1)"
    by (cases "track_published m sv ev")
  with track_published_keeps_mapping [of m r sv ev] assms(1)
  have k1: "m1 r = m r" "filter (is_start_for r) cs1 = []" by auto
  show ?thesis
  proof (cases "event ev = ''track_published''")
    case True
    with Inr t k1 show ?thesis
      by (cases c1) (simp_all add: webhook_def)
  next
    case False
    show ?thesis
    proof (cases "event ev = ''ingress_ended''")
      case True
      with assms(2) Inr
      have "or_else (ingressInfo_roomName ev) (ingressInfo_name ev) \<noteq> Some r"
        by (simp add: ends_room_def)
      from ingress_ended_keeps_mapping [of ev r m sv, OF this]
      obtain m2 cs2 c2 where i: "ingress_ended m sv ev = (m2, cs2, c2)"
        and k2: "m2 r = m r" "filter (is_start_for r) cs2 = []"
        by (cases "ingress_ended m sv ev") auto
      with Inr True False show ?thesis
        by (cases c2) (simp_all add: webhook_def)
    next
      case F2: False
      with Inr False show ?thesis by (simp add: webhook_def)
    qed
  qed
qed

lemma deliver_keeps_mapping:
  assumes "m r \<noteq> None" and "\<forall>d\<in>set later. \<not> ends_room r d"
  shows "fst (deliver m later) r = m r \<and> filter (is_start_for r) (snd (deliver m later)) = []"
  using assms
proof (induction later arbitrary: m)
  case Nil
  then show ?case by simp
next
  case (Cons d ds)
  obtain m1 cs1 r1 where w: "webhook m d = (m1, cs1, r1)" by (cases "webhook m d") auto
  from Cons.prems have "\<not> ends_room r d" by simp
  with Cons.prems(1) webhook_keeps_mapping [of m r d] w
  have k: "m1 r = m r" "filter (is_start_for r) cs1 = []" by auto
  with Cons.prems have "m1 r \<noteq> None" by simp
  with Cons.IH [of m1] Cons.prems(2)
  have "fst (deliver m1 ds) r = m1 r \<and> filter (is_start_for r) (snd (deliver m1 ds)) = []" by simp
  with k w show ?case by (auto split: prod.splits)
qed


lemma track_published_started:
  assumes "room_name ev = Some r" and "r \<noteq> []"
    and "track ev = Some tr" and "type tr = 1" and "sid tr \<noteq> []"
    and "m r = None"
    and "listParticipants_1st sv = Inr (pub # ps)
         \<or> (listParticipants_1st sv = Inr [] \<and> listParticipants_2nd sv = Inr (pub # ps))"
    and "audioTrackId_of pub = Some a" and "a \<noteq> []"
    and "startTrackCompositeEgress sv = Inr eid"
  shows "\<exists>cs. track_published m sv ev = (m(r \<mapsto> eid), cs, Next)
           \<and> filter is_start cs = [StartTrackCompositeEgress r a (sid tr)]"
proof -
  from assms(1-6) have g: "track_guard m ev = Inr (r, sid tr)"
    by (simp add: track_guard_def)
  from assms(7) obtain qs where q: "query_participants sv r = (qs, Inr (pub # ps))"
    and qs: "filter is_start qs = []"
    by (auto simp: query_participants_def)
  from assms(10)
  have s: "start_egress m sv r a (sid tr)
           = (m(r \<mapsto> eid), [StartTrackCompositeEgress r a (sid tr)])"
    by (simp add: start_egress_def)
  from g q qs s assms(5,8,9) show ?thesis
    by (simp add: track_published_def)
qed

text \<open>
  Deliveries handled one after the other. A video \<open>track_published\<close> event for a room
  without a mapping, whose publisher (the first participant of the answer, after at most
  one retry) has an audio track with an id, and whose start call returns a job id, makes
  exactly one start call and sets the mapping of the room to that id. Whatever is
  delivered afterwards, each delivery handled after the one before has completed, makes
  no start call for the room and leaves its mapping as it is, as long as no
  \<open>ingress_ended\<close> for the room is among the deliveries.
\<close>

lemma egress_started_once:
  assumes "receive sv = Inr ev" and "event ev = ''track_published''"
    and "room_name ev = Some r" and "r \<noteq> []"
    and "track ev = Some tr" and "type tr = 1" and "sid tr \<noteq> []"
    and "m r = None"
    and "listParticipants_1st sv = Inr (pub # ps)
         \<or> (listParticipants_1st sv = Inr [] \<and> listParticipants_2nd sv = Inr (pub # ps))"
    and "audioTrackId_of pub = Some a" and "a \<noteq> []"
    and "startTrackCompositeEgress sv = Inr eid"
    and "\<forall>d\<in>set later. \<not> ends_room r d"
  shows "(\<exists>cs. webhook m sv = (m(r \<mapsto> eid), cs, Ok)
            \<and> filter is_start cs = [StartTrackCompositeEgress r a (sid tr)])
         \<and> fst (deliver (m(r \<mapsto> eid)) later) r = Some eid
         \<and> filter (is_start_for r) (snd (deliver (m(r \<mapsto> eid)) later)) = []"
proof -
  from assms(3-12) track_published_started [of ev r tr m sv pub ps a eid]
  obtain cs where t: "track_published m sv ev = (m(r \<mapsto> eid), cs, Next)"
    and cs: "filter is_start cs = [StartTrackCompositeEgress r a (sid tr)]" by blast
  from assms(1,2) t have "webhook m sv = (m(r \<mapsto> eid), cs, Ok)"
    by (simp add: webhook_def)
  with cs have first: "\<exists>cs. webhook m sv = (m(r \<mapsto> eid), cs, Ok)
      \<and> filter is_start cs = [StartTrackCompositeEgress r a (sid tr)]" by blast
  have "(m(r \<mapsto> eid)) r \<noteq> None" by simp
  with deliver_keeps_mapping [of "m(r \<mapsto> eid)" r later] assms(13) first
  show ?thesis by simp
qed

lemma egress_started_once_example:
  "(\<exists>cs. webhook Map.empty
      \<lparr>receive = Inr \<lparr>event = ''track_published'', room_name = Some ''r1'',
                       track = Some \<lparr>type = 1, sid = ''TR_v''\<rparr>,
                       ingressInfo_roomName = None, ingressInfo_name = None\<rparr>,
       listParticipants_1st = Inr [],
       listParticipants_2nd =
         Inr [\<lparr>identity = ''host'',
               tracks = [\<lparr>type = 1, sid = ''TR_v''\<rparr>, \<lparr>type = 0, sid = ''TR_a''\<rparr>]\<rparr>],
       startTrackCompositeEgress = Inr ''EG_1'',
       stopEgress = Inr ()\<rparr> = ([''r1'' \<mapsto> ''EG_1''], cs, Ok)
     \<and> filter is_start cs = [StartTrackCompositeEgress ''r1'' ''TR_a'' ''TR_v''])
   \<and> fst (deliver [''r1'' \<mapsto> ''EG_1'']
        [\<lparr>receive = Inr \<lparr>event = ''track_published'', room_name = Some ''r1'',
                       track = Some \<lparr>type = 1, sid = ''TR_v''\<rparr>,
                       ingressInfo_roomName = None, ingressInfo_name = None\<rparr>,
          listParticipants_1st =
            Inr [\<lparr>identity = ''host'',
               tracks = [\<lparr>type = 1, sid = ''TR_v''\<rparr>, \<lparr>type = 0, sid = ''TR_a''\<rparr>]\<rparr>],
          listParticipants_2nd = Inr [],
          startTrackCompositeEgress = Inr ''EG_2'',
          stopEgress = Inr ()\<rparr>]) ''r1'' = Some ''EG_1''
   \<and> filter (is_start_for ''r1'') (snd (deliver [''r1'' \<mapsto> ''EG_1'']
        [\<lparr>receive = Inr \<lparr>event = ''track_published'', room_name = Some ''r1'',
                       track = Some \<lparr>type = 1, sid = ''TR_v''\<rparr>,
                       ingressInfo_roomName = None, ingressInfo_name = None\<rparr>,
          listParticipants_1st =
            Inr [\<lparr>identity = ''host'',
               tracks = [\<lparr>type = 1, sid = ''TR_v''\<rparr>, \<lparr>type = 0, sid = ''TR_a''\<rparr>]\<rparr>],
          listParticipants_2nd = Inr [],
          startTrackCompositeEgress = Inr ''EG_2'',
          stopEgress = Inr ()\<rparr>])) = []"
  using egress_started_once [of
      "\<lparr>receive = Inr \<lparr>event = ''track_published'', room_name = Some ''r1'',
                       track = Some \<lparr>type = 1, sid = ''TR_v''\<rparr>,
                       ingressInfo_roomName = None, ingressInfo_name = None\<rparr>,
       listParticipants_1st = Inr [],
       listParticipants_2nd =
         Inr [\<lparr>identity = ''host'',
               tracks = [\<lparr>type = 1, sid = ''TR_v''\<rparr>, \<lparr>type = 0, sid = ''TR_a''\<rparr>]\<rparr>],
       startTrackCompositeEgress = Inr ''EG_1'',
       stopEgress = Inr ()\<rparr>"
      "\<lparr>event = ''track_published'', room_name = Some ''r1'',
                       track = Some \<lparr>type = 1, sid = ''TR_v''\<rparr>,
                       ingressInfo_roomName = None, ingressInfo_name = None\<rparr>"
      "''r1''" "\<lparr>type = 1, sid = ''TR_v''\<rparr>" Map.empty
      "\<lparr>identity = ''host'',
               tracks = [\<lparr>type = 1, sid = ''TR_v''\<rparr>, \<lparr>type = 0, sid = ''TR_a''\<rparr>]\<rparr>"
      "[]" "''TR_a''" "''EG_1''"
      "[\<lparr>receive = Inr \<lparr>event = ''track_published'', room_name = Some ''r1'',
                       track = Some \<lparr>type = 1, sid = ''TR_v''\<rparr>,
                       ingressInfo_roomName = None, ingressInfo_name = None\<rparr>,
          listParticipants_1st =
            Inr [\<lparr>identity = ''host'',
               tracks = [\<lparr>type = 1, sid = ''TR_v''\<rparr>, \<lparr>type = 0, sid = ''TR_a''\<rparr>]\<rparr>],
          listParticipants_2nd = Inr [],
          startTrackCompositeEgress = Inr ''EG_2'',
          stopEgress = Inr ()\<rparr>]"]
  by (simp add: audioTrackId_of_def ends_room_def)

text \<open>
  When the start call throws, the handler catches the throw and the mapping stays empty:
  the same event delivered a second time makes a second start call.
\<close>

lemma egress_start_failure_example:
  "fst (webhook Map.empty
      \<lparr>receive = Inr \<lparr>event = ''track_published'', room_name = Some ''r1'',
                       track = Some \<lparr>type = 1, sid = ''TR_v''\<rparr>,
                       ingressInfo_roomName = None, ingressInfo_name = None\<rparr>,
       listParticipants_1st =
         Inr [\<lparr>identity = ''host'',
               tracks = [\<lparr>type = 0, sid = ''TR_a''\<rparr>, \<lparr>type = 1, sid = ''TR_v''\<rparr>]\<rparr>],
       listParticipants_2nd = Inr [],
       startTrackCompositeEgress = Inl ''egress unavailable'',
       stopEgress = Inr ()\<rparr>) ''r1'' = None
   \<and> filter is_start (snd (deliver Map.empty (replicate 2
      \<lparr>receive = Inr \<lparr>event = ''track_published'', room_name = Some ''r1'',
                       track = Some \<lparr>type = 1, sid = ''TR_v''\<rparr>,
                       ingressInfo_roomName = None, ingressInfo_name = None\<rparr>,
       listParticipants_1st =
         Inr [\<lparr>identity = ''host'',
               tracks = [\<lparr>type = 0, sid = ''TR_a''\<rparr>, \<lparr>type = 1, sid = ''TR_v''\<rparr>]\<rparr>],
       listParticipants_2nd = Inr [],
       startTrackCompositeEgress = Inl ''egress unavailable'',
       stopEgress = Inr ()\<rparr>)))
     = [StartTrackCompositeEgress ''r1'' ''TR_a'' ''TR_v'',
        StartTrackCompositeEgress ''r1'' ''TR_a'' ''TR_v'']"
  by (simp add: webhook_def track_published_def track_guard_def query_participants_def
      audioTrackId_of_def start_egress_def numeral_2_eq_2)

text \<open>
  Overlapping handlers. The guard reads the mapping, and only \<open>start_egress\<close>, three
  \<open>await\<close>s later, writes it; nothing marks the room as being started in between. A
  second handler for the same room whose guard runs while the first is still waiting
  sees the mapping as the first saw it, so both go on and both make a start call.
\<close>

lemma overlapping_handlers_both_start:
  assumes "track_guard m ev = Inr (r, v)"
    and "start_egress m sv r a v = (m1, cs1)"
    and "start_egress m1 sv' r a' v = (m2, cs2)"
  shows "m r = None \<and> filter (is_start_for r) (cs1 @ cs2)
           = [StartTrackCompositeEgress r a v, StartTrackCompositeEgress r a' v]"
  using assms track_guard_Inr [of m ev r v]
  by (auto simp: start_egress_def split: sum.splits)

text \<open>
  C1. The handler means to start one egress per room: it tests
  \<open>activeEgressMap.has(roomName)\<close> first. The test and the \<open>set\<close> are not one step,
  though. Here the same video \<open>track_published\<close> event for room \<open>r1\<close> is delivered
  twice, the second time while the first handler is in its wait of 1200 ms. Both guards
  run on the empty mapping and let the handler go on; both handlers find the publisher
  with its audio track; the first start call returns \<open>EG_1\<close> and sets the mapping, the
  second start call is made all the same, returns \<open>EG_2\<close> and overwrites the entry. Two
  start calls for one room, and the first job is no longer in the mapping.
\<close>

theorem duplicate_in_flight_starts_twice:
  "track_guard Map.empty
      \<lparr>event = ''track_published'', room_name = Some ''r1'',
       track = Some \<lparr>type = 1, sid = ''TR_v''\<rparr>,
       ingressInfo_roomName = None, ingressInfo_name = None\<rparr>
     = Inr (''r1'', ''TR_v'')
   \<and> query_participants
      \<lparr>receive = Inr \<lparr>event = ''track_published'', room_name = Some ''r1'',
                       track = Some \<lparr>type = 1, sid = ''TR_v''\<rparr>,
                       ingressInfo_roomName = None, ingressInfo_name = None\<rparr>,
       listParticipants_1st =
         Inr [\<lparr>identity = ''host'',
               tracks = [\<lparr>type = 0, sid = ''TR_a''\<rparr>, \<lparr>type = 1, sid = ''TR_v''\<rparr>]\<rparr>],
       listParticipants_2nd = Inr [],
       startTrackCompositeEgress = Inr ''EG_1'', stopEgress = Inr ()\<rparr> ''r1''
     = ([Sleep 1200, ListParticipants ''r1''],
        Inr [\<lparr>identity = ''host'',
              tracks = [\<lparr>type = 0, sid = ''TR_a''\<rparr>, \<lparr>type = 1, sid = ''TR_v''\<rparr>]\<rparr>])
   \<and> audioTrackId_of
        \<lparr>identity = ''host'',
         tracks = [\<lparr>type = 0, sid = ''TR_a''\<rparr>, \<lparr>type = 1, sid = ''TR_v''\<rparr>]\<rparr>
     = Some ''TR_a''
   \<and> start_egress Map.empty
      \<lparr>receive = Inr \<lparr>event = ''track_published'', room_name = Some ''r1'',
                       track = Some \<lparr>type = 1, sid = ''TR_v''\<rparr>,
                       ingressInfo_roomName = None, ingressInfo_name = None\<rparr>,
       listParticipants_1st =
         Inr [\<lparr>identity = ''host'',
               tracks = [\<lparr>type = 0, sid = ''TR_a''\<rparr>, \<lparr>type = 1, sid = ''TR_v''\<rparr>]\<rparr>],
       listParticipants_2nd = Inr [],
       startTrackCompositeEgress = Inr ''EG_1'', stopEgress = Inr ()\<rparr>
      ''r1'' ''TR_a'' ''TR_v''
     = ([''r1'' \<mapsto> ''EG_1''], [StartTrackCompositeEgress ''r1'' ''TR_a'' ''TR_v''])
   \<and> start_egress [''r1'' \<mapsto> ''EG_1'']
      \<lparr>receive = Inr \<lparr>event = ''track_published'', room_name = Some ''r1'',
                       track = Some \<lparr>type = 1, sid = ''TR_v''\<rparr>,
                       ingressInfo_roomName = None, ingressInfo_name = None\<rparr>,
       listParticipants_1st =
         Inr [\<lparr>identity = ''host'',
               tracks = [\<lparr>type = 0, sid = ''TR_a''\<rparr>, \<lparr>type = 1, sid = ''TR_v''\<rparr>]\<rparr>],
       listParticipants_2nd = Inr [],
       startTrackCompositeEgress = Inr ''EG_2'', stopEgress = Inr ()\<rparr>
      ''r1'' ''TR_a'' ''TR_v''
     = ([''r1'' \<mapsto> ''EG_2''], [StartTrackCompositeEgress ''r1'' ''TR_a'' ''TR_v''])"
  by (simp add: track_guard_def query_participants_def audioTrackId_of_def start_egress_def)

text \<open>
  What a run of the handler does to the mapping: nothing, or one entry set to the id
  that the start call returned, or one entry removed.
\<close>

lemma start_egress_mapping:
  "fst (start_egress m sv r a v) = m
   \<or> (\<exists>e. startTrackCompositeEgress sv = Inr e \<and> fst (start_egress m sv r a v) = m(r \<mapsto> e))"
  by (cases "startTrackCompositeEgress sv") (simp_all add: start_egress_def)

lemma track_published_start_or_same:
  "fst (track_published m sv ev) = m
   \<or> (\<exists>r a v. r \<noteq> [] \<and> fst (track_published m sv ev) = fst (start_egress m sv r a v))"
proof (cases "track_guard m ev")
  case (Inl a)
  then show ?thesis by (simp add: track_published_def)
next
  case (Inr b)
  obtain rn v where b: "b = (rn, v)" by (cases b)
  with Inr track_guard_Inr [of m ev rn v] have ne: "rn \<noteq> []" by simp
  obtain cs res where q: "query_participants sv rn = (cs, res)"
    by (cases "query_participants sv rn")
  show ?thesis
  proof (cases res)
    case (Inl e)
    with Inr b q show ?thesis by (simp add: track_published_def)
  next
    case ps: (Inr ps)
    show ?thesis
    proof (cases ps)
      case Nil
      with Inr b q ps show ?thesis by (simp add: track_published_def)
    next
      case (Cons pub rest)
      show ?thesis
      proof (cases "audioTrackId_of pub")
        case None
        with Inr b q ps Cons show ?thesis by (simp add: track_published_def)
      next
        case (Some a)
        show ?thesis
        proof (cases "v = [] \<or> a = []")
          case True
          with Inr b q ps Cons Some show ?thesis by (simp add: track_published_def)
        next
          case False
          with Inr b q ps Cons Some
          have "fst (track_published m sv ev) = fst (start_egress m sv rn a v)"
            by (simp add: track_published_def split: prod.splits)
          with ne show ?thesis by blast
        qed
      qed
    qed
  qed
qed

lemma track_published_mapping:
  "fst (track_published m sv ev) = m
   \<or> (\<exists>r e. r \<noteq> [] \<and> startTrackCompositeEgress sv = Inr e
          \<and> fst (track_published m sv ev) = m(r \<mapsto> e))"
proof -
  from track_published_start_or_same [of m sv ev]
  consider "fst (track_published m sv ev) = m"
    | r a v where "r \<noteq> []" "fst (track_published m sv ev) = fst (start_egress m sv r a v)"
    by blast
  then show ?thesis
  proof cases
    case 1
    then show ?thesis by simp
  next
    case 2
    with start_egress_mapping [of m sv r a v] show ?thesis by metis
  qed
qed

lemma ingress_ended_mapping:
  "fst (ingress_ended m sv ev) = m \<or> (\<exists>r. fst (ingress_ended m sv ev) = m(r := None))"
proof (cases "or_else (ingressInfo_roomName ev) (ingressInfo_name ev)")
  case None
  then show ?thesis by (simp add: ingress_ended_def)
next
  case (Some r)
  show ?thesis
  proof (cases "m r")
    case None
    with Some show ?thesis by (simp add: ingress_ended_def)
  next
    case eid: (Some eid)
    show ?thesis
    proof (cases "r = [] \<or> eid = []")
      case True
      with Some eid have "fst (ingress_ended m sv ev) = m"
        by (auto simp: ingress_ended_def)
      then show ?thesis by simp
    next
      case False
      with Some eid have "fst (ingress_ended m sv ev) = m(r := None)"
        by (cases "stopEgress sv") (simp_all add: ingress_ended_def)
      then show ?thesis by blast
    qed
  qed
qed

lemma webhook_mapping:
  "fst (webhook m sv) = m
   \<or> (\<exists>r e. r \<noteq> [] \<and> startTrackCompositeEgress sv = Inr e \<and> fst (webhook m sv) = m(r \<mapsto> e))
   \<or> (\<exists>r. fst (webhook m sv) = m(r := None))"
proof (cases "receive sv")
  case (Inl e)
  then show ?thesis by (simp add: webhook_def)
next
  case (Inr ev)
  show ?thesis
  proof (cases "event ev = ''track_published''")
    case True
    obtain m1 cs1 c1 where t: "track_published m sv ev = (m1, cs1, c1)"
      by (cases "track_published m sv ev")
    with Inr True have w: "fst (webhook m sv) = m1"
      by (cases c1) (simp_all add: webhook_def)
    from t track_published_mapping [of m sv ev]
    have "m1 = m \<or> (\<exists>r e. r \<noteq> [] \<and> startTrackCompositeEgress sv = Inr e
                          \<and> m1 = m(r \<mapsto> e))"
      by simp
    then show ?thesis unfolding w by blast
  next
    case False
    show ?thesis
    proof (cases "event ev = ''ingress_ended''")
      case True
      obtain m2 cs2 c2 where i: "ingress_ended m sv ev = (m2, cs2, c2)"
        by (cases "ingress_ended m sv ev")
      with Inr True False have w: "fst (webhook m sv) = m2"
        by (cases c2) (simp_all add: webhook_def)
      from i ingress_ended_mapping [of m sv ev]
      have "m2 = m \<or> (\<exists>r. m2 = m(r := None))" by simp
      then show ?thesis unfolding w by blast
    next
      case F: False
      with Inr False show ?thesis by (simp add: webhook_def)
    qed
  qed
qed

text \<open>
  So the mapping only ever holds job ids that a start call returned, under non-empty
  room names: when the platform's job ids are not empty, no entry of a mapping built up
  by deliveries holds an empty id.
\<close>

lemma webhook_ids_nonempty:
  assumes "\<forall>k e. m k = Some e \<longrightarrow> k \<noteq> [] \<and> e \<noteq> []"
    and "\<forall>e. startTrackCompositeEgress sv = Inr e \<longrightarrow> e \<noteq> []"
  shows "\<forall>k e. fst (webhook m sv) k = Some e \<longrightarrow> k \<noteq> [] \<and> e \<noteq> []"
proof (intro allI impI)
  fix k e
  assume entry: "fst (webhook m sv) k = Some e"
  from webhook_mapping [of m sv]
  consider "fst (webhook m sv) = m"
    | r e' where "r \<noteq> []" "startTrackCompositeEgress sv = Inr e'"
        "fst (webhook m sv) = m(r \<mapsto> e')"
    | r where "fst (webhook m sv) = m(r := None)"
    by blast
  then show "k \<noteq> [] \<and> e \<noteq> []"
  proof cases
    case 1
    with entry have "m k = Some e" by simp
    with assms(1) show ?thesis by blast
  next
    case 2
    show ?thesis
    proof (cases "k = r")
      case True
      with 2(3) entry have "e = e'" by simp
      with 2(1,2) True assms(2) show ?thesis by blast
    next
      case False
      with 2(3) entry have "m k = Some e" by simp
      with assms(1) show ?thesis by blast
    qed
  next
    case 3
    with entry have "m k = Some e" by (cases "k = r") simp_all
    with assms(1) show ?thesis by blast
  qed
qed

lemma deliver_ids_nonempty:
  assumes "\<forall>k e. m k = Some e \<longrightarrow> k \<noteq> [] \<and> e \<noteq> []"
    and "\<forall>d\<in>set ds. \<forall>e. startTrackCompositeEgress d = Inr e \<longrightarrow> e \<noteq> []"
  shows "\<forall>k e. fst (deliver m ds) k = Some e \<longrightarrow> k \<noteq> [] \<and> e \<noteq> []"
  using assms
proof (induction ds arbitrary: m)
  case Nil
  then show ?case by simp
next
  case (Cons d ds)
  obtain m1 cs1 r1 where w: "webhook m d = (m1, cs1, r1)" by (cases "webhook m d") auto
  from Cons.prems(2) have d: "\<forall>e. startTrackCompositeEgress d = Inr e \<longrightarrow> e \<noteq> []"
    and ds: "\<forall>d\<in>set ds. \<forall>e. startTrackCompositeEgress d = Inr e \<longrightarrow> e \<noteq> []"
    by simp_all
  from webhook_ids_nonempty [OF Cons.prems(1) d] w
  have m1: "\<forall>k e. m1 k = Some e \<longrightarrow> k \<noteq> [] \<and> e \<noteq> []" by simp
  have "fst (deliver m (d # ds)) = fst (deliver m1 ds)"
    using w by (simp split: prod.splits)
  with Cons.IH [OF m1 ds] show ?case by simp
qed

text \<open>
  C2. An \<open>ingress_ended\<close> event for a room whose mapping holds a job id (a non-empty
  string, as every id the platform returns) makes exactly one stop call, for that id,
  removes the mapping and answers ok, whatever the stop call does: the theorem holds for
  every result of \<open>stopEgress\<close>, a throw included, and the witness runs it with a stop
  call that throws. For a room without a mapping the event changes nothing and makes no
  call.
\<close>

theorem ingress_ended_stops_once:
  assumes "receive sv = Inr ev" and "event ev = ''ingress_ended''"
    and "or_else (ingressInfo_roomName ev) (ingressInfo_name ev) = Some r" and "r \<noteq> []"
  shows "(m r = Some eid \<and> eid \<noteq> []
            \<longrightarrow> webhook m sv = (m(r := None), [StopEgress eid], Ok))
         \<and> (m r = None \<longrightarrow> webhook m sv = (m, [], Ok))"
  using assms by (auto simp: webhook_def ingress_ended_def split: sum.splits)

theorem ingress_ended_stops_once_witness:
  "webhook [''r1'' \<mapsto> ''EG_1'']
      \<lparr>receive = Inr \<lparr>event = ''ingress_ended'', room_name = None, track = None,
                       ingressInfo_roomName = Some ''r1'', ingressInfo_name = None\<rparr>,
       listParticipants_1st = Inr [], listParticipants_2nd = Inr [],
       startTrackCompositeEgress = Inr ''EG_2'', stopEgress = Inl ''egress not found''\<rparr>
   = (Map.empty, [StopEgress ''EG_1''], Ok)
   \<and> webhook Map.empty
      \<lparr>receive = Inr \<lparr>event = ''ingress_ended'', room_name = None, track = None,
                       ingressInfo_roomName = None, ingressInfo_name = Some ''r1''\<rparr>,
       listParticipants_1st = Inr [], listParticipants_2nd = Inr [],
       startTrackCompositeEgress = Inr ''EG_2'', stopEgress = Inr ()\<rparr>
   = (Map.empty, [], Ok)"
proof -
  let ?ev = "\<lparr>event = ''ingress_ended'', room_name = None, track = None,
              ingressInfo_roomName = Some ''r1'', ingressInfo_name = None\<rparr>"
  let ?ev' = "\<lparr>event = ''ingress_ended'', room_name = None, track = None,
               ingressInfo_roomName = None, ingressInfo_name = Some ''r1''\<rparr>"
  let ?sv = "\<lparr>receive = Inr ?ev, listParticipants_1st = Inr [], listParticipants_2nd = Inr [],
              startTrackCompositeEgress = Inr ''EG_2'', stopEgress = Inl ''egress not found''\<rparr>"
  let ?sv' = "\<lparr>receive = Inr ?ev', listParticipants_1st = Inr [], listParticipants_2nd = Inr [],
              startTrackCompositeEgress = Inr ''EG_2'', stopEgress = Inr ()\<rparr>"
  have present: "webhook [''r1'' \<mapsto> ''EG_1''] ?sv = (Map.empty, [StopEgress ''EG_1''], Ok)"
    using ingress_ended_stops_once [of ?sv ?ev "''r1''" "[''r1'' \<mapsto> ''EG_1'']" "''EG_1''"]
    by (simp add: or_else_def truthy_def)
  have absent: "webhook Map.empty ?sv' = (Map.empty, [], Ok)"
    using ingress_ended_stops_once [of ?sv' ?ev' "''r1''" Map.empty "''EG_1''"]
    by (simp add: or_else_def truthy_def)
  from present absent show ?thesis by simp
qed

text \<open>
  The handler reads the entry with \<open>get\<close> and tests \<open>!egressId\<close>: an entry holding
  the empty string would be taken for a missing one and left in place. By
  \<open>deliver_ids_nonempty\<close> no such entry arises from job ids that are not empty.
\<close>

lemma ingress_ended_falsy_id:
  assumes "receive sv = Inr ev" and "event ev = ''ingress_ended''"
    and "or_else (ingressInfo_roomName ev) (ingressInfo_name ev) = Some r"
    and "m r = Some []"
  shows "webhook m sv = (m, [], Ok)"
  using assms by (simp add: webhook_def ingress_ended_def)

lemma track_published_abandoned:
  assumes "track_guard m ev = Inr (r, v)"
    and "query_participants sv r = (cs, Inr ps)"
    and "ps = [] \<or> \<not> truthy (audioTrackId_of (hd ps)) \<or> v = []"
  shows "track_published m sv ev = (m, cs, Return Ok)"
  using assms
  by (auto simp: track_published_def truthy_def split: list.splits option.splits)

text \<open>
  C7 (as amended). For a video \<open>track_published\<close> event of a room without a mapping:
  when the first participant query answers with no participant, the handler waits and
  queries exactly once more, and abandons (no start call, mapping unchanged, answer ok)
  when the second answer is empty too or its first participant has no audio track id or
  the event has no video track id. When the first answer has a participant but the audio
  or the video track id is missing, the handler abandons at once, without a second query.
\<close>

theorem participant_retry_then_abandon:
  assumes "receive sv = Inr ev" and "event ev = ''track_published''"
    and "room_name ev = Some r" and "r \<noteq> []"
    and "track ev = Some tr" and "type tr = 1" and "m r = None"
  shows "(listParticipants_1st sv = Inr [] \<and> listParticipants_2nd sv = Inr []
            \<longrightarrow> webhook m sv
                = (m, [Sleep 1200, ListParticipants r, Sleep 1000, ListParticipants r], Ok))
       \<and> (listParticipants_1st sv = Inr [] \<and> listParticipants_2nd sv = Inr (pub # ps)
            \<and> (\<not> truthy (audioTrackId_of pub) \<or> sid tr = [])
            \<longrightarrow> webhook m sv
                = (m, [Sleep 1200, ListParticipants r, Sleep 1000, ListParticipants r], Ok))
       \<and> (listParticipants_1st sv = Inr (pub # ps)
            \<and> (\<not> truthy (audioTrackId_of pub) \<or> sid tr = [])
            \<longrightarrow> webhook m sv = (m, [Sleep 1200, ListParticipants r], Ok))"
proof -
  from assms(3-7) have g: "track_guard m ev = Inr (r, sid tr)"
    by (simp add: track_guard_def)
  have w: "webhook m sv = (m, cs, Ok)"
    if "query_participants sv r = (cs, Inr qs)"
      and "qs = [] \<or> \<not> truthy (audioTrackId_of (hd qs)) \<or> sid tr = []" for cs qs
    using track_published_abandoned [OF g that] assms(1,2) by (simp add: webhook_def)
  show ?thesis
  proof (intro conjI impI)
    assume "listParticipants_1st sv = Inr [] \<and> listParticipants_2nd sv = Inr []"
    then show "webhook m sv
        = (m, [Sleep 1200, ListParticipants r, Sleep 1000, ListParticipants r], Ok)"
      by (intro w [of _ "[]"]) (simp_all add: query_participants_def)
  next
    assume "listParticipants_1st sv = Inr [] \<and> listParticipants_2nd sv = Inr (pub # ps)
            \<and> (\<not> truthy (audioTrackId_of pub) \<or> sid tr = [])"
    then show "webhook m sv
        = (m, [Sleep 1200, ListParticipants r, Sleep 1000, ListParticipants r], Ok)"
      by (intro w [of _ "pub # ps"]) (auto simp: query_participants_def)
  next
    assume "listParticipants_1st sv = Inr (pub # ps)
            \<and> (\<not> truthy (audioTrackId_of pub) \<or> sid tr = [])"
    then show "webhook m sv = (m, [Sleep 1200, ListParticipants r], Ok)"
      by (intro w [of _ "pub # ps"]) (auto simp: query_participants_def)
  qed
qed

theorem participant_retry_then_abandon_witness:
  "webhook Map.empty
      \<lparr>receive = Inr \<lparr>event = ''track_published'', room_name = Some ''r1'',
                       track = Some \<lparr>type = 1, sid = ''TR_v''\<rparr>,
                       ingressInfo_roomName = None, ingressInfo_name = None\<rparr>,
       listParticipants_1st = Inr [], listParticipants_2nd = Inr [],
       startTrackCompositeEgress = Inr ''EG_1'', stopEgress = Inr ()\<rparr>
   = (Map.empty,
      [Sleep 1200, ListParticipants ''r1'', Sleep 1000, ListParticipants ''r1''], Ok)
   \<and> webhook Map.empty
      \<lparr>receive = Inr \<lparr>event = ''track_published'', room_name = Some ''r1'',
                       track = Some \<lparr>type = 1, sid = ''TR_v''\<rparr>,
                       ingressInfo_roomName = None, ingressInfo_name = None\<rparr>,
       listParticipants_1st = Inr [],
       listParticipants_2nd = Inr [\<lparr>identity = ''viewer'', tracks = []\<rparr>],
       startTrackCompositeEgress = Inr ''EG_1'', stopEgress = Inr ()\<rparr>
   = (Map.empty,
      [Sleep 1200, ListParticipants ''r1'', Sleep 1000, ListParticipants ''r1''], Ok)
   \<and> webhook Map.empty
      \<lparr>receive = Inr \<lparr>event = ''track_published'', room_name = Some ''r1'',
                       track = Some \<lparr>type = 1, sid = []\<rparr>,
                       ingressInfo_roomName = None, ingressInfo_name = None\<rparr>,
       listParticipants_1st =
         Inr [\<lparr>identity = ''host'', tracks = [\<lparr>type = 0, sid = ''TR_a''\<rparr>]\<rparr>],
       listParticipants_2nd = Inr [],
       startTrackCompositeEgress = Inr ''EG_1'', stopEgress = Inr ()\<rparr>
   = (Map.empty, [Sleep 1200, ListParticipants ''r1''], Ok)"
proof -
  let ?tr = "\<lparr>type = 1, sid = ''TR_v''\<rparr>"
  let ?ev = "\<lparr>event = ''track_published'', room_name = Some ''r1'', track = Some ?tr,
              ingressInfo_roomName = None, ingressInfo_name = None\<rparr>"
  let ?tre = "\<lparr>type = 1, sid = []\<rparr>"
  let ?eve = "\<lparr>event = ''track_published'', room_name = Some ''r1'', track = Some ?tre,
               ingressInfo_roomName = None, ingressInfo_name = None\<rparr>"
  let ?viewer = "\<lparr>identity = ''viewer'', tracks = []\<rparr>"
  let ?host = "\<lparr>identity = ''host'', tracks = [\<lparr>type = 0, sid = ''TR_a''\<rparr>]\<rparr>"
  let ?sva = "\<lparr>receive = Inr ?ev, listParticipants_1st = Inr [], listParticipants_2nd = Inr [],
               startTrackCompositeEgress = Inr ''EG_1'', stopEgress = Inr ()\<rparr>"
  let ?svb = "\<lparr>receive = Inr ?ev, listParticipants_1st = Inr [],
               listParticipants_2nd = Inr [?viewer],
               startTrackCompositeEgress = Inr ''EG_1'', stopEgress = Inr ()\<rparr>"
  let ?svc = "\<lparr>receive = Inr ?eve, listParticipants_1st = Inr [?host],
               listParticipants_2nd = Inr [],
               startTrackCompositeEgress = Inr ''EG_1'', stopEgress = Inr ()\<rparr>"
  have none_twice: "webhook Map.empty ?sva
      = (Map.empty, [Sleep 1200, ListParticipants ''r1'', Sleep 1000, ListParticipants ''r1''], Ok)"
    using participant_retry_then_abandon [of ?sva ?ev "''r1''" ?tr Map.empty]
    by simp
  have no_audio: "webhook Map.empty ?svb
      = (Map.empty, [Sleep 1200, ListParticipants ''r1'', Sleep 1000, ListParticipants ''r1''], Ok)"
    using participant_retry_then_abandon [of ?svb ?ev "''r1''" ?tr Map.empty ?viewer "[]"]
    by (simp add: audioTrackId_of_def truthy_def)
  have no_video: "webhook Map.empty ?svc = (Map.empty, [Sleep 1200, ListParticipants ''r1''], Ok)"
    using participant_retry_then_abandon [of ?svc ?eve "''r1''" ?tre Map.empty ?host "[]"]
    by (simp add: audioTrackId_of_def truthy_def)
  from none_twice no_audio no_video show ?thesis by simp
qed

text \<open>
  C7 as stated fails for a missing track id: the first answer names a participant
  without an audio track, and the handler abandons after that single query although a
  second query would have found the track.
\<close>

theorem missing_track_no_retry_counterexample:
  "webhook Map.empty
      \<lparr>receive = Inr \<lparr>event = ''track_published'', room_name = Some ''r1'',
                       track = Some \<lparr>type = 1, sid = ''TR_v''\<rparr>,
                       ingressInfo_roomName = None, ingressInfo_name = None\<rparr>,
       listParticipants_1st =
         Inr [\<lparr>identity = ''host'', tracks = [\<lparr>type = 1, sid = ''TR_v''\<rparr>]\<rparr>],
       listParticipants_2nd =
         Inr [\<lparr>identity = ''host'',
               tracks = [\<lparr>type = 1, sid = ''TR_v''\<rparr>, \<lparr>type = 0, sid = ''TR_a''\<rparr>]\<rparr>],
       startTrackCompositeEgress = Inr ''EG_1'',
       stopEgress = Inr ()\<rparr>
   = (Map.empty, [Sleep 1200, ListParticipants ''r1''], Ok)"
  by (simp add: webhook_def track_published_def track_guard_def query_participants_def
      audioTrackId_of_def)

section \<open>Facts about the storage backends\<close>

lemma map_of_keep:
  "map_of (filter (\<lambda>(q, x). P q) fs) p = (if P p then map_of fs p else None)"
  by (induction fs) auto

lemma within_self: "within p p"
  by (simp add: within_def)

lemma rebase_not_src:
  assumes "src \<noteq> dest" and "\<not> prefix (dest @ ''/'') src"
  shows "rebase src dest q \<noteq> src"
proof (cases "q = src")
  case True
  with assms(1) show ?thesis by (simp add: rebase_def)
next
  case False
  show ?thesis
  proof (cases "prefix (src @ ''/'') q")
    case True
    then obtain rest where q: "q = (src @ ''/'') @ rest" by (auto simp: prefix_def)
    have "dest @ ''/'' @ rest \<noteq> src"
    proof
      assume "dest @ ''/'' @ rest = src"
      then have "prefix (dest @ ''/'') src" by (metis append.assoc prefixI)
      with assms(2) show False by simp
    qed
    with False True q show ?thesis by (simp add: rebase_def)
  next
    case F: False
    with False show ?thesis by (simp add: rebase_def)
  qed
qed

lemma rebase_to_dest:
  assumes "rebase src dest q = dest"
  shows "q = src \<or> q = dest"
proof (cases "q = src")
  case True
  then show ?thesis by simp
next
  case False
  show ?thesis
  proof (cases "prefix (src @ ''/'') q")
    case True
    then obtain rest where "q = (src @ ''/'') @ rest" by (auto simp: prefix_def)
    with assms False True show ?thesis by (simp add: rebase_def)
  next
    case F: False
    with assms False show ?thesis by (simp add: rebase_def)
  qed
qed

lemma map_of_rekeyed_none:
  assumes "\<forall>q. f q \<noteq> k"
  shows "map_of (map (\<lambda>(q, x). (f q, x)) fs) k = None"
  using assms by (induction fs) auto

lemma map_of_rekeyed_some:
  assumes "map_of fs src = Some n" and "map_of fs dest = None"
    and "f src = dest" and "\<forall>q. f q = dest \<longrightarrow> q = src \<or> q = dest"
  shows "map_of (map (\<lambda>(q, x). (f q, x)) fs) dest = Some n"
  using assms(1,2)
proof (induction fs)
  case Nil
  then show ?case by simp
next
  case (Cons e fs)
  obtain q x where e: "e = (q, x)" by (cases e)
  show ?case
  proof (cases "q = src")
    case True
    with Cons.prems e assms(3) show ?thesis by simp
  next
    case False
    from Cons.prems(2) e have "q \<noteq> dest" by (auto split: if_splits)
    with False assms(4) have "f q \<noteq> dest" by blast
    with Cons e False \<open>q \<noteq> dest\<close> show ?thesis by (simp split: if_splits)
  qed
qed

lemma move_result:
  assumes "move fs src dest = Inr fs'"
  shows "\<not> pathExists fs' src \<and> (\<exists>n. map_of fs src = Some n \<and> map_of fs' dest = Some n)"
proof -
  from assms obtain n where n: "map_of fs src = Some n" and ne: "src \<noteq> dest"
    and free: "map_of fs dest = None" and above: "\<not> prefix (dest @ ''/'') src"
    and fs': "fs' = map (\<lambda>(q, x). (rebase src dest q, x)) fs"
    by (auto simp: move_def split: option.splits if_splits)
  from rebase_not_src [OF ne above] have "map_of fs' src = None"
    unfolding fs' by (intro map_of_rekeyed_none) simp
  moreover have "map_of fs' dest = Some n"
    unfolding fs' using n free
  proof (intro map_of_rekeyed_some)
    show "rebase src dest src = dest" by (simp add: rebase_def)
    show "\<forall>q. rebase src dest q = dest \<longrightarrow> q = src \<or> q = dest"
      using rebase_to_dest [of src dest] by blast
  qed
  ultimately show ?thesis using n by (simp add: pathExists_def)
qed

lemma remove_result:
  assumes "remove fs p = Inr fs'"
  shows "\<not> pathExists fs' p"
  using assms
  by (auto simp: remove_def pathExists_def map_of_keep within_self
      split: option.splits prod.splits)

lemma upload_result:
  assumes "upload s3 b k obj = Inr (s3', loc)"
  shows "\<exists>objs. buckets s3' b = Some objs \<and> objs k = Some obj"
  using assms by (auto simp: upload_def split: option.splits if_splits)

lemma failed_not_success: "\<not> success (failed key clk e)"
  by (simp add: failed_def)

lemma fileSize_spread:
  "fileSize (spread key name sz t pm) = (case fileSize_opt pm of None \<Rightarrow> sz | Some v \<Rightarrow> v)"
  by (simp add: spread_def)

lemma LocalStorage_saveRecording_success:
  assumes "LocalStorage_saveRecording ls clk fs tmp key pm = (fs', r)" and "success r"
  shows "\<not> pathExists fs' tmp
    \<and> (\<exists>p st. filePath r = Some p \<and> stat fs' p = Inr st
          \<and> fileSize (metadata r) = (case fileSize_opt pm of None \<Rightarrow> size' st | Some v \<Rightarrow> v))"
proof -
  let ?final = "path_join (recordingsPath ls) (key @ ''_'' @ timestamp clk @ ''.flv'')"
  from assms obtain st where mv: "move fs tmp ?final = Inr fs'"
    and st: "stat fs' ?final = Inr st"
    and r: "filePath r = Some ?final"
       "metadata r = spread key (key @ ''_'' @ timestamp clk @ ''.flv'') (size' st) (now clk) pm"
    by (auto simp: LocalStorage_saveRecording_def Let_def failed_not_success
        split: if_splits sum.splits)
  from move_result [OF mv] st r show ?thesis by (simp add: fileSize_spread)
qed

lemma S3Storage_saveRecording_success:
  assumes "S3Storage_saveRecording st clk fs s3 tmp key pm = (fs', s3', r)" and "success r"
  shows "\<not> pathExists fs' tmp
    \<and> (\<exists>k objs obj. filePath r = Some k \<and> buckets s3' (bucketName st) = Some objs
          \<and> objs k = Some obj
          \<and> fileSize (metadata r)
              = (case fileSize_opt pm of None \<Rightarrow> ContentLength obj | Some v \<Rightarrow> v))"
proof -
  let ?name = "key @ ''_'' @ timestamp clk @ ''.flv''"
  let ?k = "recordingsPrefix st @ key @ ''/'' @ ?name"
  from assms obtain sta loc where sta: "stat fs tmp = Inr sta"
    and up: "upload s3 (bucketName st) ?k
               \<lparr>ContentLength = size' sta, ContentType = ''video/x-flv'',
                StorageClass = ''STANDARD_IA'', ServerSideEncryption = ''AES256''\<rparr>
             = Inr (s3', loc)"
    and rm: "remove fs tmp = Inr fs'"
    and r: "filePath r = Some ?k" "metadata r = spread key ?name (size' sta) (now clk) pm"
    by (auto simp: S3Storage_saveRecording_def Let_def failed_not_success
        split: if_splits sum.splits prod.splits)
  from upload_result [OF up] obtain objs where
    "buckets s3' (bucketName st) = Some objs"
    "objs ?k = Some \<lparr>ContentLength = size' sta, ContentType = ''video/x-flv'',
                StorageClass = ''STANDARD_IA'', ServerSideEncryption = ''AES256''\<rparr>"
    by blast
  with remove_result [OF rm] r show ?thesis
    by (simp add: fileSize_spread split: option.splits)
qed

text \<open>
  C3 (as amended). After a save that returns \<open>success: true\<close>, on either backend, the
  temp file no longer exists and the destination named by \<open>filePath\<close> does; the reported
  \<open>metadata.fileSize\<close> is the size of that destination, unless the caller's partial
  metadata carries a \<open>fileSize\<close>, which is then reported in its place.
\<close>

theorem saveRecording_success:
  "(LocalStorage_saveRecording ls clk fs tmp key pm = (fs1, r1) \<and> success r1
      \<longrightarrow> \<not> pathExists fs1 tmp
        \<and> (\<exists>p st. filePath r1 = Some p \<and> stat fs1 p = Inr st
              \<and> fileSize (metadata r1)
                  = (case fileSize_opt pm of None \<Rightarrow> size' st | Some v \<Rightarrow> v)))
   \<and> (S3Storage_saveRecording sto clk fs s3 tmp key pm = (fs2, s3', r2) \<and> success r2
      \<longrightarrow> \<not> pathExists fs2 tmp
        \<and> (\<exists>k objs obj. filePath r2 = Some k \<and> buckets s3' (bucketName sto) = Some objs
              \<and> objs k = Some obj
              \<and> fileSize (metadata r2)
                  = (case fileSize_opt pm of None \<Rightarrow> ContentLength obj | Some v \<Rightarrow> v)))"
  using LocalStorage_saveRecording_success [of ls clk fs tmp key pm fs1 r1]
    S3Storage_saveRecording_success [of sto clk fs s3 tmp key pm fs2 s3' r2]
  by blast

theorem saveRecording_success_witness:
  "(\<not> pathExists [(''rec/k_2024-01-01T10-00-00-000Z.flv'',
         \<lparr>stats = \<lparr>size' = 5, birthtime = 900, isDirectory = False\<rparr>, busy = False\<rparr>)] ''tmp/k.flv''
    \<and> (\<exists>p st. Some ''rec/k_2024-01-01T10-00-00-000Z.flv'' = Some p
         \<and> stat [(''rec/k_2024-01-01T10-00-00-000Z.flv'',
              \<lparr>stats = \<lparr>size' = 5, birthtime = 900, isDirectory = False\<rparr>, busy = False\<rparr>)] p = Inr st
         \<and> size' st = 5))
   \<and> (\<not> pathExists [] ''tmp/k.flv''
    \<and> (\<exists>k objs obj. Some ''recordings/k/k_2024-01-01T10-00-00-000Z.flv'' = Some k
         \<and> [''b'' \<mapsto> [''recordings/k/k_2024-01-01T10-00-00-000Z.flv'' \<mapsto>
               \<lparr>ContentLength = 5, ContentType = ''video/x-flv'',
                StorageClass = ''STANDARD_IA'', ServerSideEncryption = ''AES256''\<rparr>]] ''b''
             = Some objs
         \<and> objs k = Some obj \<and> ContentLength obj = 5))"
proof -
  let ?ls = "\<lparr>recordingsPath = ''rec'', tempPath = ''tmp'', HTTP_PORT = ''8002''\<rparr>"
  let ?sto = "\<lparr>bucketName = ''b'', recordingsPrefix = ''recordings/'', cloudFrontDomain = None\<rparr>"
  let ?clk = "\<lparr>now = 1000, toISOString = ''2024-01-01T10:00:00.000Z''\<rparr>"
  let ?fs = "[(''tmp/k.flv'',
       \<lparr>stats = \<lparr>size' = 5, birthtime = 900, isDirectory = False\<rparr>, busy = False\<rparr>)]"
  let ?store = "\<lparr>reachable = True, buckets = [''b'' \<mapsto> Map.empty]\<rparr>"
  let ?pm = "\<lparr>streamKey_opt = None, fileName_opt = None, fileSize_opt = None, duration_opt = None,
        quality_opt = None, thumbnailPath_opt = None, uploadTime_opt = None\<rparr>"
  let ?md = "\<lparr>streamKey = ''k'', fileName = ''k_2024-01-01T10-00-00-000Z.flv'',
             fileSize = 5, duration = None, quality = None, thumbnailPath = None,
             uploadTime = 1000\<rparr>"
  have local: "LocalStorage_saveRecording ?ls ?clk ?fs ''tmp/k.flv'' ''k'' ?pm
     = ([(''rec/k_2024-01-01T10-00-00-000Z.flv'',
         \<lparr>stats = \<lparr>size' = 5, birthtime = 900, isDirectory = False\<rparr>, busy = False\<rparr>)],
        \<lparr>success = True, filePath = Some ''rec/k_2024-01-01T10-00-00-000Z.flv'',
           url = Some ''http://localhost:8002/recordings/k_2024-01-01T10-00-00-000Z.flv'',
           metadata = ?md, error = None\<rparr>)"
    by (simp add: LocalStorage_saveRecording_def Let_def pathExists_def move_def rebase_def stat_def
        path_join_def timestamp_def spread_def)
  have remote: "S3Storage_saveRecording ?sto ?clk ?fs ?store ''tmp/k.flv'' ''k'' ?pm
     = ([],
        \<lparr>reachable = True,
          buckets = [''b'' \<mapsto> [''recordings/k/k_2024-01-01T10-00-00-000Z.flv'' \<mapsto>
             \<lparr>ContentLength = 5, ContentType = ''video/x-flv'',
              StorageClass = ''STANDARD_IA'', ServerSideEncryption = ''AES256''\<rparr>]]\<rparr>,
        \<lparr>success = True, filePath = Some ''recordings/k/k_2024-01-01T10-00-00-000Z.flv'',
           url = Some ''https://b.s3.amazonaws.com/recordings/k/k_2024-01-01T10-00-00-000Z.flv'',
           metadata = ?md, error = None\<rparr>)"
    by (simp add: S3Storage_saveRecording_def Let_def pathExists_def remove_def refused_def within_def stat_def
        upload_def timestamp_def spread_def truthy_def)
  from saveRecording_success [THEN conjunct1, rule_format, OF conjI, OF local]
    saveRecording_success [THEN conjunct2, rule_format, OF conjI, OF remote]
  show ?thesis by simp
qed

text \<open>
  C3 as stated fails when the caller passes a \<open>fileSize\<close>: the save succeeds, the
  destination holds 5 bytes, and the result reports the caller's 999.
\<close>

theorem saveRecording_fileSize_counterexample:
  "success (snd (LocalStorage_saveRecording
       \<lparr>recordingsPath = ''rec'', tempPath = ''tmp'', HTTP_PORT = ''8002''\<rparr>
       \<lparr>now = 1000, toISOString = ''2024-01-01T10:00:00.000Z''\<rparr>
       [(''tmp/k.flv'', \<lparr>stats = \<lparr>size' = 5, birthtime = 900, isDirectory = False\<rparr>, busy = False\<rparr>)]
       ''tmp/k.flv'' ''k''
       \<lparr>streamKey_opt = None, fileName_opt = None, fileSize_opt = Some 999, duration_opt = None,
        quality_opt = None, thumbnailPath_opt = None, uploadTime_opt = None\<rparr>))
   \<and> fileSize (metadata (snd (LocalStorage_saveRecording
       \<lparr>recordingsPath = ''rec'', tempPath = ''tmp'', HTTP_PORT = ''8002''\<rparr>
       \<lparr>now = 1000, toISOString = ''2024-01-01T10:00:00.000Z''\<rparr>
       [(''tmp/k.flv'', \<lparr>stats = \<lparr>size' = 5, birthtime = 900, isDirectory = False\<rparr>, busy = False\<rparr>)]
       ''tmp/k.flv'' ''k''
       \<lparr>streamKey_opt = None, fileName_opt = None, fileSize_opt = Some 999, duration_opt = None,
        quality_opt = None, thumbnailPath_opt = None, uploadTime_opt = None\<rparr>))) = 999
   \<and> fst (LocalStorage_saveRecording
       \<lparr>recordingsPath = ''rec'', tempPath = ''tmp'', HTTP_PORT = ''8002''\<rparr>
       \<lparr>now = 1000, toISOString = ''2024-01-01T10:00:00.000Z''\<rparr>
       [(''tmp/k.flv'', \<lparr>stats = \<lparr>size' = 5, birthtime = 900, isDirectory = False\<rparr>, busy = False\<rparr>)]
       ''tmp/k.flv'' ''k''
       \<lparr>streamKey_opt = None, fileName_opt = None, fileSize_opt = Some 999, duration_opt = None,
        quality_opt = None, thumbnailPath_opt = None, uploadTime_opt = None\<rparr>)
     = [(''rec/k_2024-01-01T10-00-00-000Z.flv'',
         \<lparr>stats = \<lparr>size' = 5, birthtime = 900, isDirectory = False\<rparr>, busy = False\<rparr>)]"
  by (simp add: LocalStorage_saveRecording_def Let_def pathExists_def move_def rebase_def stat_def
      path_join_def timestamp_def spread_def)

text \<open>
  C4. On both backends a save whose temp file does not exist returns a result (the
  throw is caught inside) with \<open>success: false\<close> and the error text
  \<open>Temp file not found:\<close> followed by the path; the file system and the bucket are
  left as they were, so no destination is created.
\<close>

theorem saveRecording_missing_temp:
  assumes "\<not> pathExists fs tmp"
  shows "\<exists>r. LocalStorage_saveRecording ls clk fs tmp key pm = (fs, r)
           \<and> S3Storage_saveRecording sto clk fs s3 tmp key pm = (fs, s3, r)
           \<and> \<not> success r \<and> error r = Some (''Temp file not found: '' @ tmp)
           \<and> filePath r = None \<and> fileSize (metadata r) = 0"
  using assms
  by (simp add: LocalStorage_saveRecording_def S3Storage_saveRecording_def failed_def)

theorem saveRecording_missing_temp_witness:
  "\<not> pathExists [] ''tmp/gone.flv''
   \<and> (\<exists>r. LocalStorage_saveRecording
              \<lparr>recordingsPath = ''rec'', tempPath = ''tmp'', HTTP_PORT = ''8002''\<rparr>
              \<lparr>now = 1000, toISOString = ''2024-01-01T10:00:00.000Z''\<rparr> [] ''tmp/gone.flv'' ''k''
              \<lparr>streamKey_opt = None, fileName_opt = None, fileSize_opt = None,
               duration_opt = None, quality_opt = None, thumbnailPath_opt = None,
               uploadTime_opt = None\<rparr> = ([], r)
         \<and> S3Storage_saveRecording
              \<lparr>bucketName = ''b'', recordingsPrefix = ''recordings/'', cloudFrontDomain = None\<rparr>
              \<lparr>now = 1000, toISOString = ''2024-01-01T10:00:00.000Z''\<rparr> []
              \<lparr>reachable = True, buckets = [''b'' \<mapsto> Map.empty]\<rparr> ''tmp/gone.flv'' ''k''
              \<lparr>streamKey_opt = None, fileName_opt = None, fileSize_opt = None,
               duration_opt = None, quality_opt = None, thumbnailPath_opt = None,
               uploadTime_opt = None\<rparr>
            = ([], \<lparr>reachable = True, buckets = [''b'' \<mapsto> Map.empty]\<rparr>, r)
         \<and> \<not> success r \<and> error r = Some ''Temp file not found: tmp/gone.flv''
         \<and> filePath r = None \<and> fileSize (metadata r) = 0)"
proof -
  have h: "\<not> pathExists [] ''tmp/gone.flv''" by (simp add: pathExists_def)
  from h saveRecording_missing_temp [OF h,
      of "\<lparr>recordingsPath = ''rec'', tempPath = ''tmp'', HTTP_PORT = ''8002''\<rparr>"
         "\<lparr>now = 1000, toISOString = ''2024-01-01T10:00:00.000Z''\<rparr>" "''k''"
         "\<lparr>streamKey_opt = None, fileName_opt = None, fileSize_opt = None,
               duration_opt = None, quality_opt = None, thumbnailPath_opt = None,
               uploadTime_opt = None\<rparr>"
         "\<lparr>bucketName = ''b'', recordingsPrefix = ''recordings/'', cloudFrontDomain = None\<rparr>"
         "\<lparr>reachable = True, buckets = [''b'' \<mapsto> Map.empty]\<rparr>"]
  show ?thesis by simp
qed

lemma S3Storage_constructor_returns:
  "\<exists>st. S3Storage_constructor env s3 = Inr (st, verifyConnection st s3)"
  by (simp add: S3Storage_constructor_def Let_def)

lemma verifyConnection_unreachable:
  assumes "\<not> reachable s3"
  shows "verifyConnection st s3 = Rejected ''S3 connection failed: NetworkingError''"
  using assms by (simp add: verifyConnection_def headBucket_def)

text \<open>
  C5. The constructor does make the existence check against the bucket, but as a call of
  an \<open>async\<close> method whose promise it drops: with an unreachable store the check's
  promise is rejected and \<open>new S3Storage()\<close> still returns the instance.
\<close>

theorem S3Storage_constructor_does_not_throw:
  "S3Storage_constructor
      \<lparr>S3_BUCKET_NAME = Some ''b'', S3_RECORDINGS_PREFIX = None, CLOUDFRONT_DOMAIN = None\<rparr>
      \<lparr>reachable = False, buckets = Map.empty\<rparr>
   = Inr (\<lparr>bucketName = ''b'', recordingsPrefix = ''recordings/'', cloudFrontDomain = None\<rparr>,
          Rejected ''S3 connection failed: NetworkingError'')"
  by (simp add: S3Storage_constructor_def verifyConnection_def headBucket_def or_else_def
      truthy_def)

lemma LocalStorage_deleteRecording_twice:
  "snd (LocalStorage_deleteRecording ls (fst (LocalStorage_deleteRecording ls fs name)) name)
   = False"
proof (cases "pathExists fs (path_join (recordingsPath ls) name)")
  case False
  then show ?thesis by (simp add: LocalStorage_deleteRecording_def)
next
  case True
  show ?thesis
  proof (cases "remove fs (path_join (recordingsPath ls) name)")
    case (Inl e)
    with True show ?thesis by (simp add: LocalStorage_deleteRecording_def)
  next
    case (Inr fs')
    with True remove_result [OF Inr] show ?thesis
      by (simp add: LocalStorage_deleteRecording_def)
  qed
qed

text \<open>
  What the two delete methods do. On the local backend, deleting a name that is absent
  returns false and changes nothing, and a second delete of the same name always returns
  false. On the remote backend the answer does not depend on the object being there: it
  is true exactly when the store accepts the request.
\<close>

lemma deleteRecording_absent:
  "(\<not> pathExists fs (path_join (recordingsPath ls) name)
      \<longrightarrow> LocalStorage_deleteRecording ls fs name = (fs, False))
   \<and> snd (LocalStorage_deleteRecording ls (fst (LocalStorage_deleteRecording ls fs name)) name)
       = False
   \<and> snd (S3Storage_deleteRecording sto s3 k)
       = (reachable s3 \<and> buckets s3 (bucketName sto) \<noteq> None)"
proof (intro conjI impI)
  assume "\<not> pathExists fs (path_join (recordingsPath ls) name)"
  then show "LocalStorage_deleteRecording ls fs name = (fs, False)"
    by (simp add: LocalStorage_deleteRecording_def)
next
  show "snd (LocalStorage_deleteRecording ls (fst (LocalStorage_deleteRecording ls fs name)) name)
       = False"
    by (rule LocalStorage_deleteRecording_twice)
next
  show "snd (S3Storage_deleteRecording sto s3 k)
       = (reachable s3 \<and> buckets s3 (bucketName sto) \<noteq> None)"
    by (cases "reachable s3"; cases "buckets s3 (bucketName sto)")
       (simp_all add: S3Storage_deleteRecording_def deleteObject_def)
qed

text \<open>
  C6. Both classes implement \<open>deleteRecording\<close> of \<open>BaseStorage\<close>. The local one tests
  \<open>pathExists\<close> and returns false for a recording that is not there. The remote one
  makes no such test: for a key that was never stored the store accepts the request and
  the method returns true, and it returns true again on the second delete, while the
  object store is left as it was.
\<close>

theorem S3Storage_deleteRecording_absent_returns_true:
  "LocalStorage_deleteRecording
      \<lparr>recordingsPath = ''rec'', tempPath = ''tmp'', HTTP_PORT = ''8002''\<rparr> [] ''gone.flv''
     = ([], False)
   \<and> S3Storage_deleteRecording
      \<lparr>bucketName = ''b'', recordingsPrefix = ''recordings/'', cloudFrontDomain = None\<rparr>
      \<lparr>reachable = True, buckets = [''b'' \<mapsto> Map.empty]\<rparr> ''recordings/k/gone.flv''
     = (\<lparr>reachable = True, buckets = [''b'' \<mapsto> Map.empty]\<rparr>, True)
   \<and> snd (S3Storage_deleteRecording
      \<lparr>bucketName = ''b'', recordingsPrefix = ''recordings/'', cloudFrontDomain = None\<rparr>
      (fst (S3Storage_deleteRecording
        \<lparr>bucketName = ''b'', recordingsPrefix = ''recordings/'', cloudFrontDomain = None\<rparr>
        \<lparr>reachable = True, buckets = [''b'' \<mapsto> Map.empty]\<rparr> ''recordings/k/gone.flv''))
      ''recordings/k/gone.flv'') = True"
  by (simp add: LocalStorage_deleteRecording_def pathExists_def path_join_def
      S3Storage_deleteRecording_def deleteObject_def)

lemma path_join_inj:
  assumes "a \<noteq> []" and "b \<noteq> []" and "path_join root a = path_join root b"
  shows "a = b"
  using assms by (simp add: path_join_def)
























end
